theory Spec2Isabelle
  imports Complex_Main "HOL-Library.Word" "HOL-Library.Signed_Division"
begin

unbundle bit_operations_syntax

section \<open>Colours\<close>

text \<open>
  Go's \<^verbatim>\<open>color.Color\<close> is an interface whose only method, \<^verbatim>\<open>RGBA()\<close>, returns four
  \<^verbatim>\<open>uint32\<close> values. The code of this package reads a colour through that method only,
  so a colour is modelled by the four words the method returns.
\<close>

type_synonym color = "32 word \<times> 32 word \<times> 32 word \<times> 32 word"

text \<open>The struct \<^verbatim>\<open>color.RGBA{R, G, B, A uint8}\<close>.\<close>

datatype RGBA = RGBA (rgbaR: "8 word") (rgbaG: "8 word") (rgbaB: "8 word") (rgbaA: "8 word")

text \<open>
  The standard library's method \<^verbatim>\<open>func (c RGBA) RGBA()\<close>: every channel is widened and
  its byte repeated, \<^verbatim>\<open>r = uint32(c.R); r |= r << 8\<close>.
\<close>

definition widen8 :: "8 word \<Rightarrow> 32 word" where
  "widen8 c = (ucast c) OR push_bit 8 (ucast c)"

definition RGBA_RGBA :: "RGBA \<Rightarrow> color" where
  "RGBA_RGBA c = (widen8 (rgbaR c), widen8 (rgbaG c), widen8 (rgbaB c), widen8 (rgbaA c))"

section \<open>Pixel errors\<close>

text \<open>
  The struct \<^verbatim>\<open>PixelError\<close> is declared in a file of the package that is not part of the
  sources at hand; \<^verbatim>\<open>findColor\<close> builds one from four positional fields, three
  \<^verbatim>\<open>float32\<close> channels and a marker. The channels are modelled as rationals: every
  finite \<^verbatim>\<open>float32\<close> is one, and the values \<^verbatim>\<open>findColor\<close> stores are integers of 16 bits,
  which \<^verbatim>\<open>float32\<close> represents exactly.
\<close>

datatype PixelError = PixelError (peR: rat) (peG: rat) (peB: rat) (peA: rat)

datatype error = IndexOutOfRange | DivideByZero

section \<open>The nearest-colour search\<close>

text \<open>
  \<^verbatim>\<open>abs(x int16) uint16\<close>. Both \<^verbatim>\<open>int16\<close> and \<^verbatim>\<open>uint16\<close> are \<open>16 word\<close>; the conversion
  between them keeps the bits, and \<open>- x\<close> wraps as Go's negation does.
\<close>

definition abs16 :: "16 word \<Rightarrow> 16 word" where
  "abs16 x = (if x <s 0 then - x else x)"

text \<open>
  The low-pass filter \<^verbatim>\<open>int16(float32(int16(e)) * 0.75)\<close>. The conversion of an
  \<^verbatim>\<open>int16\<close> to \<^verbatim>\<open>float32\<close> is exact, \<^verbatim>\<open>0.75\<close> is a \<^verbatim>\<open>float32\<close>, and the product
  \<open>3 * x / 4\<close> with \<open>\<bar>x\<bar> \<le> 2 ^ 15\<close> has at most 18 significant bits, so it is exact,
  too; the conversion back to \<^verbatim>\<open>int16\<close> discards the fraction (truncation towards zero).
  The whole expression is therefore the truncating integer division of \<open>3 * x\<close> by 4.
\<close>

definition lowpass :: "32 word \<Rightarrow> 16 word" where
  "lowpass e = word_of_int ((sint (ucast e :: 16 word) * 3) sdiv 4)"

text \<open>\<^verbatim>\<open>int16(uint8(c))\<close>: the low byte of a channel, widened.\<close>

definition chan8 :: "32 word \<Rightarrow> 16 word" where
  "chan8 c = ucast (ucast c :: 8 word)"

text \<open>The working value \<^verbatim>\<open>pixR, pixG, pixB\<close> of \<^verbatim>\<open>findColor\<close>.\<close>

definition working :: "color \<Rightarrow> color \<Rightarrow> 16 word \<times> 16 word \<times> 16 word" where
  "working err pix =
     (case err of (errR, errG, errB, _) \<Rightarrow>
      case pix of (pixR, pixG, pixB, _) \<Rightarrow>
        (chan8 pixR + lowpass errR, chan8 pixG + lowpass errG, chan8 pixB + lowpass errB))"

text \<open>
  \<^verbatim>\<open>abs(pixR-colR) + abs(pixG-colG) + abs(pixB-colB)\<close>, a sum of \<^verbatim>\<open>uint16\<close> values
  in \<^verbatim>\<open>uint16\<close>.
\<close>

definition distance :: "16 word \<times> 16 word \<times> 16 word \<Rightarrow> color \<Rightarrow> 16 word" where
  "distance w col =
     (case w of (pixR, pixG, pixB) \<Rightarrow>
      case col of (colR, colG, colB, _) \<Rightarrow>
        abs16 (pixR - chan8 colR) + abs16 (pixG - chan8 colG) + abs16 (pixB - chan8 colB))"

text \<open>
  The loop \<^verbatim>\<open>for i, col := range pal\<close>: \<open>i\<close> is the index of the head of the remaining
  palette, the pair is \<^verbatim>\<open>(index, minDiff)\<close>.
\<close>

fun scan_palette ::
  "16 word \<times> 16 word \<times> 16 word \<Rightarrow> color list \<Rightarrow> nat \<Rightarrow> nat \<times> 16 word \<Rightarrow> nat \<times> 16 word"
where
  "scan_palette w [] i (index, minDiff) = (index, minDiff)"
| "scan_palette w (col # pal) i (index, minDiff) =
     (if distance w col < minDiff
      then scan_palette w pal (i + 1) (i, distance w col)
      else scan_palette w pal (i + 1) (index, minDiff))"

text \<open>
  \<^verbatim>\<open>findColor\<close>. The index starts at 0 and \<^verbatim>\<open>minDiff\<close> at \<^verbatim>\<open>1<<16 - 1\<close>;
  \<^verbatim>\<open>pal[index]\<close> panics when the index is out of range, which happens exactly for the
  empty palette.
\<close>

definition findColor :: "color \<Rightarrow> color \<Rightarrow> color list \<Rightarrow> error + (RGBA \<times> PixelError \<times> 16 word)" where
  "findColor err pix pal =
     (case working err pix of (pixR, pixG, pixB) \<Rightarrow>
      case scan_palette (pixR, pixG, pixB) pal 0 (0, 65535) of (index, minDiff) \<Rightarrow>
        if index < length pal then
          (case pal ! index of (c_R, c_G, c_B, _) \<Rightarrow>
             let colR = chan8 c_R; colG = chan8 c_G; colB = chan8 c_B in
             Inr (RGBA (ucast colR) (ucast colG) (ucast colB) 255,
                  PixelError (of_int (sint (pixR - colR)))
                             (of_int (sint (pixG - colG)))
                             (of_int (sint (pixB - colB)))
                             65535,
                  minDiff))
        else Inl IndexOutOfRange)"

section \<open>The kernel's alignment\<close>

text \<open>
  A kernel is a \<^verbatim>\<open>[][]float32\<close>; \<^verbatim>\<open>findShift\<close> only compares its weights with zero, and
  a finite \<^verbatim>\<open>float32\<close> is a rational.
\<close>

type_synonym matrix = "rat list list"

text \<open>The inner loop \<^verbatim>\<open>for j, v2 := range v1\<close>; \<open>None\<close> when it runs to its end.\<close>

fun findShift_row :: "rat list \<Rightarrow> nat \<Rightarrow> int option" where
  "findShift_row [] j = None"
| "findShift_row (v2 # v1) j =
     (if v2 > 0 then Some (- int j + 1) else findShift_row v1 (j + 1))"

fun findShift :: "matrix \<Rightarrow> int" where
  "findShift [] = 0"
| "findShift (v1 # matrix) =
     (case findShift_row v1 0 of Some s \<Rightarrow> s | None \<Rightarrow> findShift matrix)"

definition FloydSteinberg :: matrix where
  "FloydSteinberg = [[0, 0, 7 / 16], [3 / 16, 5 / 16, 1 / 16]]"

section \<open>Rectangles and the destination image\<close>

text \<open>
  Go's \<^verbatim>\<open>int\<close> has 64 bits (on the 64-bit platforms), and its arithmetic wraps around
  silently. A value of type \<^verbatim>\<open>int\<close> is modelled as an integer between \<open>- 2 ^ 63\<close> and
  \<open>2 ^ 63 - 1\<close>, and the result of every addition, subtraction, multiplication and
  division of the source is brought back into that range by \<open>wrap64\<close>.
\<close>

definition wrap64 :: "int \<Rightarrow> int" where
  "wrap64 k = (k + 9223372036854775808) mod 18446744073709551616 - 9223372036854775808"

text \<open>
  \<^verbatim>\<open>image.Point\<close> and \<^verbatim>\<open>image.Rectangle\<close> of the standard library, with the methods
  \<^verbatim>\<open>Dx\<close> (\<^verbatim>\<open>r.Max.X - r.Min.X\<close>) and \<^verbatim>\<open>Dy\<close> (\<^verbatim>\<open>r.Max.Y - r.Min.Y\<close>).
\<close>

datatype Point = Point (X: int) (Y: int)

datatype Rectangle = Rectangle (MinP: Point) (MaxP: Point)

definition Dx :: "Rectangle \<Rightarrow> int" where
  "Dx r = wrap64 (X (MaxP r) - X (MinP r))"

definition Dy :: "Rectangle \<Rightarrow> int" where
  "Dy r = wrap64 (Y (MaxP r) - Y (MinP r))"

text \<open>\<^verbatim>\<open>func (p Point) In(r Rectangle) bool\<close>.\<close>

definition In :: "Point \<Rightarrow> Rectangle \<Rightarrow> bool" where
  "In p r \<longleftrightarrow> X (MinP r) \<le> X p \<and> X p < X (MaxP r) \<and> Y (MinP r) \<le> Y p \<and> Y p < Y (MaxP r)"

text \<open>
  \<^verbatim>\<open>image.Paletted\<close> of the standard library: for every coordinate the index of a palette
  entry (the byte \<^verbatim>\<open>Pix[PixOffset(x, y)]\<close>), the bounds and the palette.
\<close>

datatype Paletted = Paletted (Pix: "int \<Rightarrow> int \<Rightarrow> 8 word") (Rect: Rectangle) (Palette: "color list")

text \<open>
  \<^verbatim>\<open>func (p Palette) Index(c Color) int\<close> of the standard library, with its helper
  \<^verbatim>\<open>sqDiff(x, y uint32) uint32\<close>, which returns \<^verbatim>\<open>(d * d) >> 2\<close> for \<^verbatim>\<open>d := x - y\<close>.
\<close>

definition sqDiff :: "32 word \<Rightarrow> 32 word \<Rightarrow> 32 word" where
  "sqDiff x y = drop_bit 2 ((x - y) * (x - y))"

fun Index_loop :: "color \<Rightarrow> color list \<Rightarrow> nat \<Rightarrow> nat \<times> 32 word \<Rightarrow> nat" where
  "Index_loop c [] i (ret, bestSum) = ret"
| "Index_loop c (v # p) i (ret, bestSum) =
     (case c of (cr, cg, cb, ca) \<Rightarrow>
      case v of (vr, vg, vb, va) \<Rightarrow>
        let sum = sqDiff cr vr + sqDiff cg vg + sqDiff cb vb + sqDiff ca va in
        if sum < bestSum
        then (if sum = 0 then i else Index_loop c p (i + 1) (i, sum))
        else Index_loop c p (i + 1) (ret, bestSum))"

definition Index :: "color list \<Rightarrow> color \<Rightarrow> nat" where
  "Index p c = Index_loop c p 0 (0, 4294967295)"

text \<open>
  \<^verbatim>\<open>func (p *Paletted) Set(x, y int, c color.Color)\<close>: nothing happens outside the
  bounds; inside, the byte becomes \<^verbatim>\<open>uint8(p.Palette.Index(c))\<close>.
\<close>

definition Set_Paletted :: "Paletted \<Rightarrow> int \<Rightarrow> int \<Rightarrow> color \<Rightarrow> Paletted" where
  "Set_Paletted p x y c =
     (if \<not> In (Point x y) (Rect p) then p
      else Paletted ((Pix p)(x := (Pix p x)(y := of_nat (Index (Palette p) c)))) (Rect p) (Palette p))"

text \<open>
  A \<^verbatim>\<open>draw.Image\<close> is either a \<^verbatim>\<open>*image.Paletted\<close> or an image of another type, of
  which only the colours matter here.
\<close>

datatype image = PalettedImage Paletted | OtherImage "int \<Rightarrow> int \<Rightarrow> color"

section \<open>The error buffer\<close>

text \<open>
  The file of the package that declares \<^verbatim>\<open>PixelError\<close>'s methods and the type
  \<^verbatim>\<open>ErrorImage\<close> is not part of the sources at hand. The definitions of this section
  follow the specification instead.
\<close>

text \<open>
  Modelled from the spec: the zero error, the value of an uninitialised cell
  (\<^verbatim>\<open>PixelError{}\<close>); "an uninitialized cell behaves as the additive identity (zero
  error) when read".
\<close>

definition zero_error :: PixelError where
  "zero_error = PixelError 0 0 0 0"

text \<open>
  Modelled from the spec: \<^verbatim>\<open>PixelError.Add\<close>, "pairwise addition". The specification
  does not say what becomes of the marker; the model adds it like a channel. The
  arithmetic of \<^verbatim>\<open>float32\<close> is idealised to the rationals.
\<close>

definition Add :: "PixelError \<Rightarrow> PixelError \<Rightarrow> PixelError" where
  "Add c c2 = PixelError (peR c + peR c2) (peG c + peG c2) (peB c + peB c2) (peA c + peA c2)"

text \<open>
  Modelled from the spec: \<^verbatim>\<open>PixelError.Mul\<close>, "scalar multiplication (used to apply
  kernel weights)", with the marker scaled like a channel.
\<close>

definition Mul :: "PixelError \<Rightarrow> rat \<Rightarrow> PixelError" where
  "Mul c v = PixelError (peR c * v) (peG c * v) (peB c * v) (peA c * v)"

text \<open>
  Modelled from the spec: \<^verbatim>\<open>PixelError.RGBA\<close>, through which \<^verbatim>\<open>findColor\<close> reads an
  error as a \<^verbatim>\<open>color.Color\<close>. The specification is silent about it; \<^verbatim>\<open>findColor\<close>
  reads each channel back with \<^verbatim>\<open>int16(...)\<close>, so the model delivers the channel
  truncated towards zero, in two's complement.
\<close>

definition trunc_rat :: "rat \<Rightarrow> int" where
  "trunc_rat r = (if 0 \<le> r then \<lfloor>r\<rfloor> else \<lceil>r\<rceil>)"

definition RGBA_PixelError :: "PixelError \<Rightarrow> color" where
  "RGBA_PixelError c =
     (word_of_int (trunc_rat (peR c)), word_of_int (trunc_rat (peG c)),
      word_of_int (trunc_rat (peB c)), word_of_int (trunc_rat (peA c)))"

text \<open>
  Modelled from the spec: the \<^verbatim>\<open>ErrorImage\<close>, "a 2-D grid of accumulated per-channel
  quantization error, addressable at coordinates that may lie outside the nominal image
  rectangle": a cell for every coordinate, and the rectangle the buffer was sized to.
\<close>

datatype ErrorImage = ErrorImage (Cells: "int \<Rightarrow> int \<Rightarrow> PixelError") (Bounds: Rectangle)

text \<open>
  Modelled from the spec: \<^verbatim>\<open>NewErrorImage\<close>, "allocate a fresh ErrorBuffer sized to
  rect"; no cell has been written.
\<close>

definition NewErrorImage :: "Rectangle \<Rightarrow> ErrorImage" where
  "NewErrorImage r = ErrorImage (\<lambda>x y. zero_error) r"

text \<open>
  Modelled from the spec: \<^verbatim>\<open>PixelErrorAt\<close>, the specification's \<^verbatim>\<open>errorAt(x, y)\<close>:
  "out-of-range or not-yet-written reads yield the zero error".
\<close>

definition PixelErrorAt :: "ErrorImage \<Rightarrow> int \<Rightarrow> int \<Rightarrow> PixelError" where
  "PixelErrorAt p x y = (if \<not> In (Point x y) (Bounds p) then zero_error else Cells p x y)"

text \<open>
  Modelled from the spec: \<^verbatim>\<open>SetPixelError\<close>, the specification's
  \<^verbatim>\<open>setError(x, y, value)\<close>: "out-of-range writes are silently discarded".
\<close>

definition SetPixelError :: "ErrorImage \<Rightarrow> int \<Rightarrow> int \<Rightarrow> PixelError \<Rightarrow> ErrorImage" where
  "SetPixelError p x y c =
     (if \<not> In (Point x y) (Bounds p) then p
      else ErrorImage ((Cells p)(x := (Cells p x)(y := c))) (Bounds p))"

text \<open>A run of writes, each a coordinate and a value, in order.\<close>

fun write_all :: "ErrorImage \<Rightarrow> ((int \<times> int) \<times> PixelError) list \<Rightarrow> ErrorImage" where
  "write_all p [] = p"
| "write_all p (((x, y), c) # ws) = write_all (SetPixelError p x y c) ws"

section \<open>The diffusion engine\<close>

text \<open>
  The struct \<^verbatim>\<open>Dither\<close>. Its channel \<^verbatim>\<open>animation\<close> is unbuffered and carries no state
  of its own; what \<^verbatim>\<open>Draw\<close> sends on it is part of \<^verbatim>\<open>Draw\<close>'s result below.
\<close>

record Dither =
  Matrix :: matrix
  nbFrames :: int

definition NewDither :: "matrix \<Rightarrow> Dither" where
  "NewDither matrix = \<lparr>Matrix = matrix, nbFrames = 1\<rparr>"

definition NewDitherAnimation :: "matrix \<Rightarrow> int \<Rightarrow> Dither" where
  "NewDitherAnimation matrix n = \<lparr>Matrix = matrix, nbFrames = n\<rparr>"

text \<open>
  The diffusion loops \<^verbatim>\<open>for i, v1 := range dit.Matrix\<close> and
  \<^verbatim>\<open>for j, v2 := range v1\<close>; \<open>i\<close> and \<open>j\<close> are the indices of the heads of the
  remaining rows and cells. The error at \<open>(x, y)\<close> is read again for every cell.
\<close>

fun diffuse_row :: "int \<Rightarrow> int \<Rightarrow> int \<Rightarrow> nat \<Rightarrow> rat list \<Rightarrow> nat \<Rightarrow> ErrorImage \<Rightarrow> ErrorImage" where
  "diffuse_row x y shift i [] j err = err"
| "diffuse_row x y shift i (v2 # v1) j err =
     diffuse_row x y shift i v1 (j + 1)
       (SetPixelError err (wrap64 (x + int j + shift)) (wrap64 (y + int i))
          (Add (PixelErrorAt err (wrap64 (x + int j + shift)) (wrap64 (y + int i)))
               (Mul (PixelErrorAt err x y) v2)))"

fun diffuse :: "int \<Rightarrow> int \<Rightarrow> int \<Rightarrow> matrix \<Rightarrow> nat \<Rightarrow> ErrorImage \<Rightarrow> ErrorImage" where
  "diffuse x y shift [] i err = err"
| "diffuse x y shift (v1 # m) i err =
     diffuse x y shift m (i + 1) (diffuse_row x y shift i v1 0 err)"

text \<open>
  The state of the scan: the destination, the error buffer, and the frames sent on the
  channel so far, each as the destination stood when it was sent. A send blocks until a
  consumer receives; the model is of a run whose sends are all received.
\<close>

type_synonym draw_state = "Paletted \<times> ErrorImage \<times> Paletted list"

text \<open>
  The body of the inner loop of \<^verbatim>\<open>Draw\<close>, for the pixel \<open>(x, y)\<close>. The source image is
  its method \<^verbatim>\<open>At\<close>. The remainder \<^verbatim>\<open>%\<close> panics on a zero divisor, and is only
  evaluated when \<^verbatim>\<open>y != 0 && x != 0\<close> holds.
\<close>

definition draw_pixel ::
  "Dither \<Rightarrow> color list \<Rightarrow> int \<Rightarrow> int \<Rightarrow> Rectangle \<Rightarrow> (int \<Rightarrow> int \<Rightarrow> color) \<Rightarrow>
   int \<Rightarrow> int \<Rightarrow> draw_state \<Rightarrow> error + draw_state"
where
  "draw_pixel dit p shift pixPerFrame rect src y x st =
     (case st of (dst, err, sent) \<Rightarrow>
      case findColor (RGBA_PixelError (PixelErrorAt err x y)) (src x y) p of
        Inl e \<Rightarrow> Inl e
      | Inr (r, e, _) \<Rightarrow>
          let dst' = Set_Paletted dst x y (RGBA_RGBA r);
              err' = SetPixelError err x y e
          in if y \<noteq> 0 \<and> x \<noteq> 0 then
               (if pixPerFrame = 0 then Inl DivideByZero
                else if wrap64 (wrap64 (y * Dy rect) + x) smod pixPerFrame = 0
                     then Inr (dst', diffuse x y shift (Matrix dit) 0 err', sent @ [dst'])
                     else Inr (dst', diffuse x y shift (Matrix dit) 0 err', sent))
             else Inr (dst', diffuse x y shift (Matrix dit) 0 err', sent))"

text \<open>A loop whose body may panic: the first panic ends it.\<close>

fun foldE :: "('a \<Rightarrow> 's \<Rightarrow> error + 's) \<Rightarrow> 'a list \<Rightarrow> 's \<Rightarrow> error + 's" where
  "foldE f [] s = Inr s"
| "foldE f (a # as) s = (case f a s of Inl e \<Rightarrow> Inl e | Inr s' \<Rightarrow> foldE f as s')"

text \<open>
  What a call of \<^verbatim>\<open>Draw\<close> leaves behind: the destination, the frames sent on the
  animation channel, and the error buffer if one was allocated.
\<close>

record draw_result =
  dst_out :: image
  frames :: "Paletted list"
  errbuf :: "ErrorImage option"

text \<open>
  \<^verbatim>\<open>func (dit Dither) Draw(dst draw.Image, rect image.Rectangle, src image.Image)\<close>.
  The division \<^verbatim>\<open>/\<close> truncates towards zero and panics on a zero divisor; the loops
  run over \<open>y = rect.Min.Y, \<dots>, rect.Max.Y - 1\<close> and \<open>x = rect.Min.X, \<dots>, rect.Max.X - 1\<close>,
  where the increments cannot wrap, since the loop variable stays below an \<^verbatim>\<open>int\<close>.
\<close>

definition Draw :: "Dither \<Rightarrow> image \<Rightarrow> Rectangle \<Rightarrow> (int \<Rightarrow> int \<Rightarrow> color) \<Rightarrow> error + draw_result" where
  "Draw dit dst rect src =
     (case dst of
        OtherImage other \<Rightarrow> Inr \<lparr>dst_out = dst, frames = [], errbuf = None\<rparr>
      | PalettedImage paletted \<Rightarrow>
          let p = Palette paletted;
              err = NewErrorImage rect;
              shift = findShift (Matrix dit)
          in if nbFrames dit = 0 then Inl DivideByZero
             else
               let pixPerFrame = wrap64 (wrap64 (Dx rect * Dy rect) sdiv nbFrames dit) in
               (case foldE (\<lambda>y. foldE (draw_pixel dit p shift pixPerFrame rect src y)
                                   [X (MinP rect) .. X (MaxP rect) - 1])
                          [Y (MinP rect) .. Y (MaxP rect) - 1] (paletted, err, []) of
                  Inl e \<Rightarrow> Inl e
                | Inr (dst', err', sent) \<Rightarrow>
                    Inr \<lparr>dst_out = PalettedImage dst', frames = sent, errbuf = Some err'\<rparr>))"

text \<open>The number of frames a call sends, or the panic that ends it.\<close>

definition frames_sent :: "error + draw_result \<Rightarrow> error + nat" where
  "frames_sent r = (case r of Inl e \<Rightarrow> Inl e | Inr res \<Rightarrow> Inr (length (frames res)))"

section \<open>Notions used in the statements\<close>

text \<open>
  The damped error of a channel as an integer: three quarters of the error, read as an
  \<^verbatim>\<open>int16\<close>, with the fraction cut off.
\<close>

definition damped :: "32 word \<Rightarrow> int" where
  "damped e = (sint (ucast e :: 16 word) * 3) sdiv 4"


text \<open>
  The Manhattan distance of the specification, in unbounded integers: the sum of the
  absolute differences between the channels of the working value and the channels of a
  palette entry.
\<close>

definition manhattan :: "16 word \<times> 16 word \<times> 16 word \<Rightarrow> color \<Rightarrow> int" where
  "manhattan w col =
     (case w of (pixR, pixG, pixB) \<Rightarrow>
      case col of (colR, colG, colB, _) \<Rightarrow>
        \<bar>sint pixR - sint (chan8 colR)\<bar> + \<bar>sint pixG - sint (chan8 colG)\<bar> +
        \<bar>sint pixB - sint (chan8 colB)\<bar>)"

text \<open>The colour \<^verbatim>\<open>findColor\<close> returns for a palette entry, and the residual error.\<close>

definition chosen :: "color \<Rightarrow> RGBA" where
  "chosen col = (case col of (c_R, c_G, c_B, _) \<Rightarrow>
     RGBA (ucast (chan8 c_R)) (ucast (chan8 c_G)) (ucast (chan8 c_B)) 255)"

definition residual :: "16 word \<times> 16 word \<times> 16 word \<Rightarrow> color \<Rightarrow> PixelError" where
  "residual w col = (case w of (pixR, pixG, pixB) \<Rightarrow> case col of (c_R, c_G, c_B, _) \<Rightarrow>
     PixelError (of_int (sint (pixR - chan8 c_R))) (of_int (sint (pixG - chan8 c_G)))
       (of_int (sint (pixB - chan8 c_B))) 65535)"

text \<open>The condition under which \<^verbatim>\<open>Draw\<close> sends a frame at the pixel \<open>(x, y)\<close>.\<close>

definition emits :: "Rectangle \<Rightarrow> int \<Rightarrow> int \<Rightarrow> int \<Rightarrow> bool" where
  "emits rect pixPerFrame y x \<longleftrightarrow>
     (y \<noteq> 0 \<and> x \<noteq> 0) \<and> wrap64 (wrap64 (y * Dy rect) + x) smod pixPerFrame = 0"

text \<open>The stride \<^verbatim>\<open>pixPerFrame\<close> that \<^verbatim>\<open>Draw\<close> computes.\<close>

definition stride :: "Dither \<Rightarrow> Rectangle \<Rightarrow> int" where
  "stride dit rect = wrap64 (wrap64 (Dx rect * Dy rect) sdiv nbFrames dit)"

text \<open>The pixels of a rectangle in the order of the scan, each as \<open>(y, x)\<close>.\<close>

definition scan :: "Rectangle \<Rightarrow> (int \<times> int) list" where
  "scan rect = List.product [Y (MinP rect) .. Y (MaxP rect) - 1] [X (MinP rect) .. X (MaxP rect) - 1]"

definition emissions :: "Rectangle \<Rightarrow> int \<Rightarrow> (int \<times> int) list" where
  "emissions rect pixPerFrame = filter (\<lambda>(y, x). emits rect pixPerFrame y x) (scan rect)"

text \<open>What the scan keeps of the destination it started from.\<close>

definition kept :: "Paletted \<Rightarrow> Rectangle \<Rightarrow> draw_state \<Rightarrow> bool" where
  "kept p0 rect st \<longleftrightarrow>
     (case st of (dst, err, sent) \<Rightarrow>
        Rect dst = Rect p0 \<and> Palette dst = Palette p0 \<and>
        (\<forall>x y. \<not> In (Point x y) rect \<longrightarrow> Pix dst x y = Pix p0 x y))"

text \<open>The two loops of \<^verbatim>\<open>Draw\<close>.\<close>

definition draw_loops ::
  "Dither \<Rightarrow> color list \<Rightarrow> int \<Rightarrow> int \<Rightarrow> Rectangle \<Rightarrow> (int \<Rightarrow> int \<Rightarrow> color) \<Rightarrow> draw_state \<Rightarrow> error + draw_state"
where
  "draw_loops dit p shift ppf rect src st =
     foldE (\<lambda>y. foldE (draw_pixel dit p shift ppf rect src y) [X (MinP rect) .. X (MaxP rect) - 1])
       [Y (MinP rect) .. Y (MaxP rect) - 1] st"

text \<open>Concrete inputs: a two-colour palette, destinations and a source of one colour.\<close>

definition black :: color where
  "black = RGBA_RGBA (RGBA 0 0 0 255)"

definition white :: color where
  "white = RGBA_RGBA (RGBA 255 255 255 255)"

definition canvas :: Paletted where
  "canvas = Paletted (\<lambda>x y. 0) (Rectangle (Point 0 0) (Point 8 8)) [black, white]"

definition rgba_canvas :: image where
  "rgba_canvas = OtherImage (\<lambda>x y. (0, 0, 0, 0))"

definition orange_source :: "int \<Rightarrow> int \<Rightarrow> color" where
  "orange_source = (\<lambda>x y. RGBA_RGBA (RGBA 200 100 50 255))"

section \<open>Arithmetic of the nearest-colour search\<close>

lemma stb15: "- 32768 \<le> k \<Longrightarrow> k < 32768 \<Longrightarrow> signed_take_bit 15 k = (k::int)"
  using signed_take_bit_int_eq_self [of 15 k] by simp

lemma damped_bounds: "- 24576 \<le> damped e \<and> damped e \<le> 24575"
proof -
  have "- (2 ^ 15) \<le> sint (ucast e :: 16 word)" "sint (ucast e :: 16 word) < 2 ^ 15"
    using sint_ge [of "ucast e :: 16 word"] sint_lt [of "ucast e :: 16 word"] by simp_all
  then show ?thesis
    unfolding damped_def signed_divide_int_def
    by (auto simp: sgn_if abs_if) 
qed

lemma sint_lowpass: "sint (lowpass e) = damped e"
  using damped_bounds [of e] 
  by (simp add: lowpass_def damped_def [symmetric] sint_sbintrunc' stb15)

lemma sint_chan8: "sint (chan8 c) = uint (ucast c :: 8 word)"
proof -
  have "uint (ucast c :: 8 word) < 256"
    using uint_bounded [of "ucast c :: 8 word"] by simp
  moreover have "0 \<le> uint (ucast c :: 8 word)" by simp
  ultimately have "signed_take_bit 15 (uint (ucast c :: 8 word)) = uint (ucast c :: 8 word)"
    by (intro stb15) linarith+
  then show ?thesis
    unfolding chan8_def
    by (simp add: sint_uint uint_up_ucast is_up)
qed

lemma chan8_bounds: "0 \<le> sint (chan8 c) \<and> sint (chan8 c) \<le> 255"
  using uint_bounded [of "ucast c :: 8 word"] by (simp add: sint_chan8)

lemma ucast_chan8_widen8: "ucast (chan8 (widen8 r)) = r"
  unfolding chan8_def widen8_def
  by (rule bit_word_eqI) (auto simp add: bit_simps)

lemma sint_sub16: "- 32768 \<le> sint a - sint b \<Longrightarrow> sint a - sint b < 32768 \<Longrightarrow> sint (a - b :: 16 word) = sint a - sint b"
  by (simp add: sint_word_ariths stb15)

lemma sint_add16: "- 32768 \<le> sint a + sint b \<Longrightarrow> sint a + sint b < 32768 \<Longrightarrow> sint (a + b :: 16 word) = sint a + sint b"
  by (simp add: sint_word_ariths stb15)

lemma sint_working: "sint (chan8 p + lowpass e) = uint (ucast p :: 8 word) + damped e"
proof -
  have "sint (chan8 p + lowpass e) = sint (chan8 p) + sint (lowpass e)"
    using chan8_bounds [of p] damped_bounds [of e]
    by (intro sint_add16) (simp_all only: sint_lowpass, linarith+)
  then show ?thesis by (simp add: sint_lowpass sint_chan8)
qed





lemma damped_trunc:
  fixes e :: "32 word"
  defines "x \<equiv> sint (ucast e :: 16 word)"
  shows "(0 \<le> x \<longrightarrow> 4 * damped e \<le> 3 * x \<and> 3 * x < 4 * damped e + 4) \<and>
         (x < 0 \<longrightarrow> 3 * x \<le> 4 * damped e \<and> 4 * damped e - 4 < 3 * x)"
proof -
  have "damped e = (x * 3) sdiv 4" by (simp add: damped_def x_def)
  then show ?thesis
    unfolding signed_divide_int_def
    by (auto simp: sgn_if abs_if)
qed





lemma damped_near: "\<bar>4 * damped e - 3 * sint (ucast e :: 16 word)\<bar> < 4"
  using damped_trunc [of e] by linarith

lemma scan_palette_index:
  "scan_palette w pal i (idx, m) = (idx', m') \<Longrightarrow> idx' = idx \<or> (i \<le> idx' \<and> idx' < i + length pal)"
proof (induction pal arbitrary: i idx m)
  case Nil
  then show ?case by simp
next
  case (Cons col pal)
  show ?case
  proof (cases "distance w col < m")
    case True
    with Cons.prems have "scan_palette w pal (i + 1) (i, distance w col) = (idx', m')" by simp
    from Cons.IH [OF this] show ?thesis by auto
  next
    case False
    with Cons.prems have "scan_palette w pal (i + 1) (idx, m) = (idx', m')" by simp
    from Cons.IH [OF this] show ?thesis by auto
  qed
qed

lemma findColor_Nil: "findColor err pix [] = Inl IndexOutOfRange"
  by (simp add: findColor_def split: prod.splits)

lemma findColor_nonempty:
  assumes "pal \<noteq> []"
  shows "\<exists>r e d. findColor err pix pal = Inr (r, e, d)"
proof -
  obtain w where w: "working err pix = w" by simp
  obtain wR wG wB where w3: "w = (wR, wG, wB)" by (cases w) auto
  obtain idx m where s: "scan_palette w pal 0 (0, 65535) = (idx, m)"
    by (cases "scan_palette w pal 0 (0, 65535)") auto
  from scan_palette_index [OF s] assms have "idx < length pal" by auto
  then show ?thesis
    using w w3 s by (simp add: findColor_def Let_def split: prod.splits)
qed

lemma draw_pixel_Inr:
  assumes "draw_pixel dit p shift ppf rect src y x (dst, err, sent) = Inr (dst', err', sent')"
  shows "(\<exists>r. dst' = Set_Paletted dst x y (RGBA_RGBA r)) \<and>
         sent' = sent @ (if emits rect ppf y x then [dst'] else [])"
  using assms
  by (auto simp add: draw_pixel_def emits_def Let_def split: sum.splits prod.splits if_splits)

lemma draw_pixel_total:
  assumes "p \<noteq> []" and "ppf \<noteq> 0 \<or> y = 0 \<or> x = 0"
  shows "\<exists>st'. draw_pixel dit p shift ppf rect src y x st = Inr st'"
proof -
  obtain dst err sent where st: "st = (dst, err, sent)" by (cases st) auto
  obtain r e d where "findColor (RGBA_PixelError (PixelErrorAt err x y)) (src x y) p = Inr (r, e, d)"
    using findColor_nonempty [OF assms(1)] by blast
  then show ?thesis
    using assms(2) st by (auto simp add: draw_pixel_def Let_def)
qed

lemma draw_pixel_zero_stride:
  assumes "y \<noteq> 0" and "x \<noteq> 0"
  shows "\<exists>e. draw_pixel dit p shift 0 rect src y x st = Inl e"
  using assms
  by (cases st) (auto simp add: draw_pixel_def Let_def split: sum.splits prod.splits)

lemma foldE_total:
  "(\<And>a s. a \<in> set as \<Longrightarrow> \<exists>s'. f a s = Inr s') \<Longrightarrow> \<exists>s'. foldE f as s = Inr s'"
proof (induction as arbitrary: s)
  case Nil
  then show ?case by simp
next
  case (Cons a as)
  obtain s1 where "f a s = Inr s1" using Cons.prems [of a s] by auto
  moreover obtain s2 where "foldE f as s1 = Inr s2"
    using Cons.IH [of s1] Cons.prems by auto
  ultimately show ?case by simp
qed

lemma foldE_invariant:
  "foldE f as s = Inr s' \<Longrightarrow> I s \<Longrightarrow>
   (\<And>a s s'. a \<in> set as \<Longrightarrow> I s \<Longrightarrow> f a s = Inr s' \<Longrightarrow> I s') \<Longrightarrow> I s'"
proof (induction as arbitrary: s)
  case Nil
  then show ?case by simp
next
  case (Cons a as)
  from Cons.prems(1) obtain s1 where s1: "f a s = Inr s1" "foldE f as s1 = Inr s'"
    by (auto split: sum.splits)
  have s1_inv: "I s1" using Cons.prems(3) [of a s s1] Cons.prems(2) s1(1) by simp
  show ?case
  proof (rule Cons.IH [OF s1(2) s1_inv])
    fix b t t'
    assume "b \<in> set as" "I t" "f b t = Inr t'"
    then show "I t'" using Cons.prems(3) [of b t t'] by simp
  qed
qed

lemma foldE_count:
  fixes cnt :: "'s \<Rightarrow> nat"
  shows "foldE f as s = Inr s' \<Longrightarrow>
   (\<And>a s s'. a \<in> set as \<Longrightarrow> f a s = Inr s' \<Longrightarrow> cnt s' = cnt s + g a) \<Longrightarrow>
   cnt s' = cnt s + sum_list (map g as)"
proof (induction as arbitrary: s)
  case Nil
  then show ?case by simp
next
  case (Cons a as)
  from Cons.prems(1) obtain s1 where s1: "f a s = Inr s1" "foldE f as s1 = Inr s'"
    by (auto split: sum.splits)
  have "cnt s1 = cnt s + g a" using Cons.prems(2) [of a s s1] s1(1) by simp
  moreover have "cnt s' = cnt s1 + sum_list (map g as)"
    using Cons.IH [OF s1(2)] Cons.prems(2) by simp
  ultimately show ?case by simp
qed

lemma sum_list_indicator: "sum_list (map (\<lambda>x. if P x then 1 else 0) xs) = length (filter P xs)"
  by (induction xs) simp_all

lemma length_filter_product:
  "length (filter (\<lambda>(y, x). P y x) (List.product ys xs)) =
     sum_list (map (\<lambda>y. length (filter (P y) xs)) ys)"
  by (induction ys) (simp_all add: filter_map comp_def)

lemma Rect_Set_Paletted: "Rect (Set_Paletted p x y c) = Rect p"
  by (simp add: Set_Paletted_def)

lemma Palette_Set_Paletted: "Palette (Set_Paletted p x y c) = Palette p"
  by (simp add: Set_Paletted_def)

lemma Pix_Set_Paletted_other:
  "(x', y') \<noteq> (x, y) \<Longrightarrow> Pix (Set_Paletted p x y c) x' y' = Pix p x' y'"
  by (auto simp add: Set_Paletted_def)

section \<open>The first minimum of the search\<close>

lemma uint_abs16: "uint (abs16 z) = \<bar>sint z\<bar>"
proof -
  have u: "uint z = sint z mod 65536"
    using uint_sint [of z] by (simp add: take_bit_eq_mod)
  have n: "uint (- z) = (- uint z) mod 65536"
    by (simp add: uint_word_ariths)
  have b: "- 32768 \<le> sint z" "sint z < 32768"
    using sint_ge [of z] sint_lt [of z] by simp_all
  show ?thesis
  proof (cases "z <s 0")
    case True
    then have neg: "sint z < 0" by (simp add: word_sless_alt)
    have "(sint z + 65536) mod 65536 = sint z + 65536"
      using b neg by (intro mod_pos_pos_trivial) linarith+
    then have uz: "uint z = sint z + 65536" using u by simp
    have "(- uint z + 65536) mod 65536 = - uint z + 65536"
      using b neg uz by (intro mod_pos_pos_trivial) linarith+
    then have "uint (- z) = - sint z" using n uz by simp
    with True neg show ?thesis by (simp add: abs16_def)
  next
    case False
    then have nn: "0 \<le> sint z" by (simp add: word_sless_alt)
    have "sint z mod 65536 = sint z"
      using b nn by (intro mod_pos_pos_trivial) linarith+
    with u have "uint z = sint z" by simp
    with False nn show ?thesis by (simp add: abs16_def)
  qed
qed

lemma uint_add3:
  fixes a b c :: "16 word"
  assumes "uint a + uint b + uint c \<le> 65535"
  shows "uint (a + b + c) = uint a + uint b + uint c"
proof -
  have nn: "0 \<le> uint a" "0 \<le> uint b" "0 \<le> uint c" by simp_all
  have "uint (a + b) = (uint a + uint b) mod 65536"
    by (simp add: uint_word_ariths)
  moreover have "(uint a + uint b) mod 65536 = uint a + uint b"
    using nn assms by (intro mod_pos_pos_trivial) linarith+
  ultimately have ab: "uint (a + b) = uint a + uint b" by simp
  have "uint (a + b + c) = (uint (a + b) + uint c) mod 65536"
    by (simp add: uint_word_ariths)
  moreover have "(uint (a + b) + uint c) mod 65536 = uint (a + b) + uint c"
    using nn assms ab by (intro mod_pos_pos_trivial) linarith+
  ultimately show ?thesis using ab by simp
qed

lemma working_channel: "- 24576 \<le> sint (chan8 p + lowpass e) \<and> sint (chan8 p + lowpass e) \<le> 24830"
proof -
  have "0 \<le> uint (ucast p :: 8 word)" "uint (ucast p :: 8 word) < 256"
    using uint_bounded [of "ucast p :: 8 word"] by simp_all
  with damped_bounds [of e] show ?thesis
    by (simp only: sint_working) linarith
qed

lemma uint_abs16_working:
  "uint (abs16 (chan8 p + lowpass e - chan8 c)) = \<bar>sint (chan8 p + lowpass e) - sint (chan8 c)\<bar>"
proof -
  have "sint (chan8 p + lowpass e - chan8 c) = sint (chan8 p + lowpass e) - sint (chan8 c)"
    using working_channel [of p e] chan8_bounds [of c]
    by (intro sint_sub16) linarith+
  then show ?thesis by (simp only: uint_abs16)
qed

lemma distance_manhattan:
  assumes "manhattan (working err pix) col \<le> 65535"
  shows "uint (distance (working err pix) col) = manhattan (working err pix) col"
proof -
  obtain eR eG eB eA where err: "err = (eR, eG, eB, eA)" by (cases err) auto
  obtain pR pG pB pA where pix: "pix = (pR, pG, pB, pA)" by (cases pix) auto
  obtain cR cG cB cA where col: "col = (cR, cG, cB, cA)" by (cases col) auto
  have m: "manhattan (working err pix) col =
      uint (abs16 (chan8 pR + lowpass eR - chan8 cR)) +
      uint (abs16 (chan8 pG + lowpass eG - chan8 cG)) +
      uint (abs16 (chan8 pB + lowpass eB - chan8 cB))"
    by (simp only: uint_abs16_working) (simp add: manhattan_def working_def err pix col)
  with assms have "uint (abs16 (chan8 pR + lowpass eR - chan8 cR)) +
      uint (abs16 (chan8 pG + lowpass eG - chan8 cG)) +
      uint (abs16 (chan8 pB + lowpass eB - chan8 cB)) \<le> 65535" by simp
  from uint_add3 [OF this] show ?thesis
    by (simp only: m) (simp add: distance_def working_def err pix col)
qed

lemma scan_palette_min:
  "scan_palette w pal i (idx, m) = (idx', m') \<Longrightarrow>
   (idx' = idx \<and> m' = m \<and> (\<forall>col \<in> set pal. m \<le> distance w col)) \<or>
   (i \<le> idx' \<and> idx' < i + length pal \<and> m' = distance w (pal ! (idx' - i)) \<and> m' < m \<and>
    (\<forall>j < idx' - i. m' < distance w (pal ! j)) \<and> (\<forall>col \<in> set pal. m' \<le> distance w col))"
proof (induction pal arbitrary: i idx m)
  case Nil
  then show ?case by simp
next
  case (Cons col pal)
  let ?d = "distance w col"
  show ?case
  proof (cases "?d < m")
    case True
    with Cons.prems have "scan_palette w pal (i + 1) (i, ?d) = (idx', m')" by simp
    from Cons.IH [OF this] show ?thesis
    proof
      assume "idx' = i \<and> m' = ?d \<and> (\<forall>c \<in> set pal. ?d \<le> distance w c)"
      with True show ?thesis by simp
    next
      assume r: "i + 1 \<le> idx' \<and> idx' < i + 1 + length pal \<and>
        m' = distance w (pal ! (idx' - (i + 1))) \<and> m' < ?d \<and>
        (\<forall>j < idx' - (i + 1). m' < distance w (pal ! j)) \<and> (\<forall>c \<in> set pal. m' \<le> distance w c)"
      then obtain k where k: "idx' - i = Suc k" "idx' - (i + 1) = k"
        by (cases "idx' - i") auto
      have "m' < distance w ((col # pal) ! j)" if "j < idx' - i" for j
        using that r k by (cases j) auto
      with r k True show ?thesis by auto
    qed
  next
    case False
    then have le: "m \<le> ?d" by simp
    from False Cons.prems have "scan_palette w pal (i + 1) (idx, m) = (idx', m')" by simp
    from Cons.IH [OF this] show ?thesis
    proof
      assume "idx' = idx \<and> m' = m \<and> (\<forall>c \<in> set pal. m \<le> distance w c)"
      with le show ?thesis by simp
    next
      assume r: "i + 1 \<le> idx' \<and> idx' < i + 1 + length pal \<and>
        m' = distance w (pal ! (idx' - (i + 1))) \<and> m' < m \<and>
        (\<forall>j < idx' - (i + 1). m' < distance w (pal ! j)) \<and> (\<forall>c \<in> set pal. m' \<le> distance w c)"
      then obtain k where k: "idx' - i = Suc k" "idx' - (i + 1) = k"
        by (cases "idx' - i") auto
      have "m' < distance w ((col # pal) ! j)" if "j < idx' - i" for j
        using that r k le by (cases j) auto
      with r k le show ?thesis by auto
    qed
  qed
qed

lemma scan_palette_first_min:
  assumes "pal \<noteq> []"
  shows "\<exists>k < length pal. scan_palette w pal 0 (0, 65535) = (k, distance w (pal ! k)) \<and>
           (\<forall>j < length pal. distance w (pal ! k) \<le> distance w (pal ! j)) \<and>
           (\<forall>j < k. distance w (pal ! k) < distance w (pal ! j))"
proof -
  obtain idx' m' where s: "scan_palette w pal 0 (0, 65535) = (idx', m')"
    by (cases "scan_palette w pal 0 (0, 65535)") auto
  have top: "d \<le> 65535" for d :: "16 word"
    using uint_bounded [of d] by (simp add: word_le_def)
  from scan_palette_min [OF s] show ?thesis
  proof
    assume a: "idx' = 0 \<and> m' = 65535 \<and> (\<forall>col \<in> set pal. 65535 \<le> distance w col)"
    then have all: "distance w col = 65535" if "col \<in> set pal" for col
      using that top [of "distance w col"] by auto
    then have "distance w (pal ! j) = 65535" if "j < length pal" for j
      using that by simp
    with a s assms show ?thesis by (intro exI [of _ 0]) simp
  next
    assume r: "0 \<le> idx' \<and> idx' < 0 + length pal \<and> m' = distance w (pal ! (idx' - 0)) \<and>
      m' < 65535 \<and> (\<forall>j < idx' - 0. m' < distance w (pal ! j)) \<and>
      (\<forall>col \<in> set pal. m' \<le> distance w col)"
    then have k: "idx' < length pal" and m: "m' = distance w (pal ! idx')"
      and lt: "\<forall>j < idx'. m' < distance w (pal ! j)"
      and le: "\<forall>col \<in> set pal. m' \<le> distance w col"
      unfolding diff_zero add_0 by blast+
    have "m' \<le> distance w (pal ! j)" if "j < length pal" for j
      using le nth_mem [OF that] by blast
    then have A: "\<forall>j < length pal. distance w (pal ! idx') \<le> distance w (pal ! j)"
      unfolding m by blast
    from lt have B: "\<forall>j < idx'. distance w (pal ! idx') < distance w (pal ! j)"
      unfolding m .
    from s have "scan_palette w pal 0 (0, 65535) = (idx', distance w (pal ! idx'))"
      unfolding m .
    with k A B show ?thesis by blast
  qed
qed

lemma findColor_first_min16:
  assumes "pal \<noteq> []"
  shows "\<exists>k < length pal.
           findColor err pix pal =
             Inr (chosen (pal ! k), residual (working err pix) (pal ! k), distance (working err pix) (pal ! k)) \<and>
           (\<forall>j < length pal. distance (working err pix) (pal ! k) \<le> distance (working err pix) (pal ! j)) \<and>
           (\<forall>j < k. distance (working err pix) (pal ! k) < distance (working err pix) (pal ! j))"
proof -
  obtain k where k: "k < length pal"
    "scan_palette (working err pix) pal 0 (0, 65535) = (k, distance (working err pix) (pal ! k))"
    "\<forall>j < length pal. distance (working err pix) (pal ! k) \<le> distance (working err pix) (pal ! j)"
    "\<forall>j < k. distance (working err pix) (pal ! k) < distance (working err pix) (pal ! j)"
    using scan_palette_first_min [OF assms] by blast
  obtain wR wG wB where w: "working err pix = (wR, wG, wB)" by (cases "working err pix") auto
  obtain cR cG cB cA where c: "pal ! k = (cR, cG, cB, cA)" by (cases "pal ! k") auto
  have "findColor err pix pal =
      Inr (chosen (pal ! k), residual (working err pix) (pal ! k), distance (working err pix) (pal ! k))"
    using k(1) k(2) [unfolded w] c
    by (simp add: findColor_def w chosen_def residual_def Let_def)
  with k show ?thesis by blast
qed

lemma findColor_nearest_in_range:
  assumes "pal \<noteq> []" and "\<forall>col \<in> set pal. manhattan (working err pix) col \<le> 65535"
  shows "\<exists>k < length pal.
           findColor err pix pal =
             Inr (chosen (pal ! k), residual (working err pix) (pal ! k),
                  word_of_int (manhattan (working err pix) (pal ! k))) \<and>
           (\<forall>j < length pal. manhattan (working err pix) (pal ! k) \<le> manhattan (working err pix) (pal ! j)) \<and>
           (\<forall>j < k. manhattan (working err pix) (pal ! k) < manhattan (working err pix) (pal ! j))"
proof -
  have d: "uint (distance (working err pix) (pal ! j)) = manhattan (working err pix) (pal ! j)"
    if "j < length pal" for j
    using that assms(2) by (intro distance_manhattan) simp
  obtain k where k: "k < length pal"
    "findColor err pix pal =
       Inr (chosen (pal ! k), residual (working err pix) (pal ! k), distance (working err pix) (pal ! k))"
    "\<forall>j < length pal. distance (working err pix) (pal ! k) \<le> distance (working err pix) (pal ! j)"
    "\<forall>j < k. distance (working err pix) (pal ! k) < distance (working err pix) (pal ! j)"
    using findColor_first_min16 [OF assms(1)] by blast
  have "word_of_int (uint (distance (working err pix) (pal ! k))) = distance (working err pix) (pal ! k)"
    by (rule word_of_int_uint)
  then have e: "distance (working err pix) (pal ! k) = word_of_int (manhattan (working err pix) (pal ! k))"
    by (simp only: d [OF k(1)])
  have le: "manhattan (working err pix) (pal ! k) \<le> manhattan (working err pix) (pal ! j)"
    if "j < length pal" for j
  proof -
    from k(3) that have "uint (distance (working err pix) (pal ! k)) \<le> uint (distance (working err pix) (pal ! j))"
      by (simp only: word_le_def)
    then show ?thesis by (simp only: d [OF that] d [OF k(1)])
  qed
  have less: "manhattan (working err pix) (pal ! k) < manhattan (working err pix) (pal ! j)"
    if "j < k" for j
  proof -
    from that k(1) have j: "j < length pal" by simp
    from k(4) that have "uint (distance (working err pix) (pal ! k)) < uint (distance (working err pix) (pal ! j))"
      by (simp only: word_less_def)
    then show ?thesis by (simp only: d [OF j] d [OF k(1)])
  qed
  from k(2) have "findColor err pix pal =
      Inr (chosen (pal ! k), residual (working err pix) (pal ! k),
           word_of_int (manhattan (working err pix) (pal ! k)))"
    using e by simp
  with k(1) le less show ?thesis by blast
qed


section \<open>The scan of \<^verbatim>\<open>Draw\<close>\<close>

lemma draw_pixel_kept:
  assumes "draw_pixel dit p shift ppf rect src y x st = Inr st'"
    and "kept p0 rect st" and "In (Point x y) rect"
  shows "kept p0 rect st'"
proof -
  obtain dst err sent where st: "st = (dst, err, sent)" by (cases st) auto
  obtain dst' err' sent' where st': "st' = (dst', err', sent')" by (cases st') auto
  from draw_pixel_Inr [OF assms(1) [unfolded st st']]
  obtain r where c: "dst' = Set_Paletted dst x y (RGBA_RGBA r)" by blast
  have "Pix dst' x' y' = Pix dst x' y'" if "\<not> In (Point x' y') rect" for x' y'
  proof -
    from that assms(3) have "(x', y') \<noteq> (x, y)" by auto
    then show ?thesis unfolding c by (rule Pix_Set_Paletted_other)
  qed
  with assms(2) show ?thesis
    by (simp add: kept_def st st' c Rect_Set_Paletted Palette_Set_Paletted)
qed

lemma draw_pixel_count:
  assumes "draw_pixel dit p shift ppf rect src y x st = Inr st'"
  shows "length (snd (snd st')) = length (snd (snd st)) + (if emits rect ppf y x then 1 else 0)"
proof -
  obtain dst err sent where st: "st = (dst, err, sent)" by (cases st) auto
  obtain dst' err' sent' where st': "st' = (dst', err', sent')" by (cases st') auto
  from draw_pixel_Inr [OF assms(1) [unfolded st st']] show ?thesis
    by (simp add: st st')
qed

lemma draw_loops_kept:
  assumes "draw_loops dit p shift ppf rect src st = Inr st'" and "kept p0 rect st"
  shows "kept p0 rect st'"
  using assms(1) [unfolded draw_loops_def] assms(2)
proof (rule foldE_invariant)
  fix y s s'
  assume y: "y \<in> set [Y (MinP rect) .. Y (MaxP rect) - 1]" and s: "kept p0 rect s"
    and row: "foldE (draw_pixel dit p shift ppf rect src y) [X (MinP rect) .. X (MaxP rect) - 1] s = Inr s'"
  from row s show "kept p0 rect s'"
  proof (rule foldE_invariant)
    fix x t t'
    assume x: "x \<in> set [X (MinP rect) .. X (MaxP rect) - 1]" and t: "kept p0 rect t"
      and px: "draw_pixel dit p shift ppf rect src y x t = Inr t'"
    from x y have "In (Point x y) rect" by (simp add: In_def)
    with px t show "kept p0 rect t'" by (rule draw_pixel_kept)
  qed
qed

lemma draw_loops_count:
  assumes "draw_loops dit p shift ppf rect src st = Inr st'"
  shows "length (snd (snd st')) = length (snd (snd st)) + length (emissions rect ppf)"
proof -
  let ?xs = "[X (MinP rect) .. X (MaxP rect) - 1]"
  have row: "length (snd (snd s')) = length (snd (snd s)) + length (filter (emits rect ppf y) ?xs)"
    if "foldE (draw_pixel dit p shift ppf rect src y) ?xs s = Inr s'" for y s s'
  proof -
    have "length (snd (snd s')) =
        length (snd (snd s)) + sum_list (map (\<lambda>x. if emits rect ppf y x then 1 else 0) ?xs)"
      using that by (rule foldE_count) (rule draw_pixel_count)
    then show ?thesis by (simp only: sum_list_indicator)
  qed
  have "length (snd (snd st')) =
      length (snd (snd st)) + sum_list (map (\<lambda>y. length (filter (emits rect ppf y) ?xs))
         [Y (MinP rect) .. Y (MaxP rect) - 1])"
    using assms [unfolded draw_loops_def] by (rule foldE_count) (rule row)
  then show ?thesis
    by (simp only: emissions_def scan_def length_filter_product)
qed

lemma draw_loops_total:
  assumes "p \<noteq> []" and "ppf \<noteq> 0"
  shows "\<exists>st'. draw_loops dit p shift ppf rect src st = Inr st'"
  unfolding draw_loops_def
  by (intro foldE_total draw_pixel_total assms disjI1)

lemma Draw_unfold:
  "Draw dit (PalettedImage paletted) rect src =
     (if nbFrames dit = 0 then Inl DivideByZero
      else case draw_loops dit (Palette paletted) (findShift (Matrix dit))
                  (stride dit rect) rect src
                  (paletted, NewErrorImage rect, []) of
             Inl e \<Rightarrow> Inl e
           | Inr (dst', err', sent) \<Rightarrow>
               Inr \<lparr>dst_out = PalettedImage dst', frames = sent, errbuf = Some err'\<rparr>)"
  by (simp add: Draw_def draw_loops_def stride_def Let_def)

lemma Draw_Inr:
  assumes "Draw dit (PalettedImage paletted) rect src = Inr res"
  shows "\<exists>dst' err'. dst_out res = PalettedImage dst' \<and> errbuf res = Some err' \<and>
           Rect dst' = Rect paletted \<and> Palette dst' = Palette paletted \<and>
           (\<forall>x y. \<not> In (Point x y) rect \<longrightarrow> Pix dst' x y = Pix paletted x y) \<and>
           length (frames res) =
             length (emissions rect (stride dit rect))"
proof -
  let ?ppf = "stride dit rect"
  let ?st = "(paletted, NewErrorImage rect, [])"
  from assms obtain dst' err' sent where
    loops: "draw_loops dit (Palette paletted) (findShift (Matrix dit)) ?ppf rect src ?st = Inr (dst', err', sent)"
    and res: "res = \<lparr>dst_out = PalettedImage dst', frames = sent, errbuf = Some err'\<rparr>"
    by (auto simp add: Draw_unfold split: if_splits sum.splits)
  have "kept paletted rect ?st" by (simp add: kept_def)
  with loops have "kept paletted rect (dst', err', sent)" by (rule draw_loops_kept)
  moreover from draw_loops_count [OF loops] have "length sent = length (emissions rect ?ppf)" by simp
  ultimately show ?thesis by (simp add: res kept_def)
qed

lemma Draw_total:
  assumes "Palette paletted \<noteq> []" and "nbFrames dit \<noteq> 0"
    and "stride dit rect \<noteq> 0"
  shows "\<exists>res. Draw dit (PalettedImage paletted) rect src = Inr res"
proof -
  obtain st' where "draw_loops dit (Palette paletted) (findShift (Matrix dit))
      (stride dit rect) rect src (paletted, NewErrorImage rect, []) = Inr st'"
    using draw_loops_total [OF assms(1,3)] by blast
  then show ?thesis
    using assms(2) by (cases st') (simp add: Draw_unfold)
qed


lemma foldE_Inl:
  "foldE f as s = Inl e \<Longrightarrow> \<exists>a \<in> set as. \<exists>t. f a t = Inl e"
proof (induction as arbitrary: s)
  case Nil
  then show ?case by simp
next
  case (Cons a as)
  show ?case
  proof (cases "f a s")
    case (Inl e')
    with Cons.prems show ?thesis by auto
  next
    case (Inr s1)
    with Cons.prems have "foldE f as s1 = Inl e" by simp
    from Cons.IH [OF this] show ?thesis by auto
  qed
qed

lemma foldE_stops:
  "a \<in> set as \<Longrightarrow> (\<And>t. \<exists>e. f a t = Inl e) \<Longrightarrow> \<exists>e. foldE f as s = Inl e"
proof (induction as arbitrary: s)
  case Nil
  then show ?case by simp
next
  case (Cons b as)
  show ?case
  proof (cases "f b s")
    case (Inl e')
    then show ?thesis by simp
  next
    case (Inr s1)
    with Cons.prems(2) [of s] have "b \<noteq> a" by auto
    with Cons.prems(1) have "a \<in> set as" by simp
    from Cons.IH [OF this Cons.prems(2), of s1] Inr show ?thesis by simp
  qed
qed

lemma draw_pixel_Inl:
  assumes "draw_pixel dit p shift ppf rect src y x st = Inl e" and "p \<noteq> []"
  shows "e = DivideByZero"
proof -
  obtain dst err sent where st: "st = (dst, err, sent)" by (cases st) auto
  obtain r pe d where "findColor (RGBA_PixelError (PixelErrorAt err x y)) (src x y) p = Inr (r, pe, d)"
    using findColor_nonempty [OF assms(2)] by blast
  with assms(1) show ?thesis
    by (auto simp add: draw_pixel_def st Let_def split: if_splits)
qed

lemma draw_loops_zero_stride:
  assumes "p \<noteq> []" and "(y, x) \<in> set (scan rect)" and "y \<noteq> 0" and "x \<noteq> 0"
  shows "draw_loops dit p shift 0 rect src st = Inl DivideByZero"
proof -
  let ?xs = "[X (MinP rect) .. X (MaxP rect) - 1]"
  let ?ys = "[Y (MinP rect) .. Y (MaxP rect) - 1]"
  from assms(2) have y: "y \<in> set ?ys" and x: "x \<in> set ?xs" by (simp_all add: scan_def)
  have row: "\<exists>e. foldE (draw_pixel dit p shift 0 rect src y) ?xs t = Inl e" for t
    using x by (rule foldE_stops) (rule draw_pixel_zero_stride [OF assms(3,4)])
  obtain e where e: "draw_loops dit p shift 0 rect src st = Inl e"
    unfolding draw_loops_def
    using foldE_stops [where f = "\<lambda>y. foldE (draw_pixel dit p shift 0 rect src y) ?xs" and a = y
        and as = ?ys and s = st, OF y row] by blast
  then obtain y' t where "foldE (draw_pixel dit p shift 0 rect src y') ?xs t = Inl e"
    unfolding draw_loops_def by (blast dest: foldE_Inl)
  then obtain x' t' where "draw_pixel dit p shift 0 rect src y' x' t' = Inl e"
    by (blast dest: foldE_Inl)
  then have "e = DivideByZero" using assms(1) by (rule draw_pixel_Inl)
  with e show ?thesis by simp
qed

lemma Draw_zero_stride:
  assumes "Palette paletted \<noteq> []" and "nbFrames dit \<noteq> 0"
    and "stride dit rect = 0"
    and "(y, x) \<in> set (scan rect)" and "y \<noteq> 0" and "x \<noteq> 0"
  shows "Draw dit (PalettedImage paletted) rect src = Inl DivideByZero"
  using assms(2,3) draw_loops_zero_stride [OF assms(1,4,5,6)]
  by (simp add: Draw_unfold)

lemma Draw_frames_sent:
  assumes "Palette paletted \<noteq> []" and "nbFrames dit \<noteq> 0"
    and "stride dit rect \<noteq> 0"
  shows "frames_sent (Draw dit (PalettedImage paletted) rect src) =
           Inr (length (emissions rect (stride dit rect)))"
proof -
  obtain res where res: "Draw dit (PalettedImage paletted) rect src = Inr res"
    using Draw_total [OF assms] by blast
  from Draw_Inr [OF res] show ?thesis
    by (auto simp add: frames_sent_def res)
qed

lemma wrap64_id:
  "- 9223372036854775808 \<le> k \<Longrightarrow> k < 9223372036854775808 \<Longrightarrow> wrap64 k = k"
  unfolding wrap64_def by (simp add: mod_pos_pos_trivial)

lemmas example_defs = canvas_def black_def white_def NewDither_def NewDitherAnimation_def
  Dx_def Dy_def wrap64_id stride_def scan_def emissions_def emits_def
  signed_divide_int_def signed_modulo_int_def
  upto.simps

text \<open>
  The area of a rectangle wraps at 64 bits: for \<open>2 ^ 62\<close> by 4 pixels the product is
  0, so is the stride of a single frame, and the remainder by it panics.
\<close>

lemma Draw_area_wraps:
  "stride (NewDither m) (Rectangle (Point 0 0) (Point 4611686018427387904 4)) = 0 \<and>
   Draw (NewDither m) (PalettedImage canvas)
     (Rectangle (Point 0 0) (Point 4611686018427387904 4)) src = Inl DivideByZero"
proof
  show z: "stride (NewDither m) (Rectangle (Point 0 0) (Point 4611686018427387904 4)) = 0"
    by (simp add: stride_def Dx_def Dy_def wrap64_def NewDither_def)
  show "Draw (NewDither m) (PalettedImage canvas)
     (Rectangle (Point 0 0) (Point 4611686018427387904 4)) src = Inl DivideByZero"
    by (rule Draw_zero_stride [of _ _ _ 1 1]) (simp_all add: z, simp_all add: canvas_def NewDither_def scan_def)
qed

lemma emissions_8x8: "emissions (Rectangle (Point 0 0) (Point 8 8)) 16 = []"
proof -
  have "\<not> emits (Rectangle (Point 0 0) (Point 8 8)) 16 y x"
    if "0 \<le> y" "y \<le> 7" "0 \<le> x" "x \<le> 7" for y x :: int
  proof
    assume e: "emits (Rectangle (Point 0 0) (Point 8 8)) 16 y x"
    have dy: "Dy (Rectangle (Point 0 0) (Point 8 8)) = 8"
      by (simp add: Dy_def wrap64_id)
    have w: "wrap64 (wrap64 (y * 8) + x) = y * 8 + x"
      using that by (simp add: wrap64_id)
    from e have "x \<noteq> 0" and "(y * 8 + x) smod 16 = 0"
      by (simp_all add: emits_def dy w)
    moreover from that have "(y * 8 + x) smod 16 = (y * 8 + x) mod 16"
      by (simp add: signed_modulo_int_def sgn_if)
    ultimately show False using that by presburger
  qed
  then show ?thesis
    by (auto simp add: emissions_def scan_def filter_empty_conv)
qed


section \<open>The kernel's alignment and the error buffer\<close>

lemma findShift_row_None: "(\<forall>v \<in> set row. \<not> 0 < v) \<Longrightarrow> findShift_row row j0 = None"
  by (induction row arbitrary: j0) simp_all

lemma findShift_row_first:
  "j < length row \<Longrightarrow> 0 < row ! j \<Longrightarrow> (\<forall>j' < j. \<not> 0 < row ! j') \<Longrightarrow>
   findShift_row row j0 = Some (- int (j0 + j) + 1)"
proof (induction row arbitrary: j j0)
  case Nil
  then show ?case by simp
next
  case (Cons v row)
  show ?case
  proof (cases j)
    case 0
    with Cons.prems show ?thesis by simp
  next
    case (Suc k)
    with Cons.prems have "\<not> 0 < v" by auto
    moreover have "findShift_row row (j0 + 1) = Some (- int (j0 + 1 + k) + 1)"
      using Cons.prems Suc by (intro Cons.IH) auto
    ultimately show ?thesis using Suc by simp
  qed
qed

lemma findShift_none: "(\<forall>row \<in> set m. \<forall>v \<in> set row. \<not> 0 < v) \<Longrightarrow> findShift m = 0"
  by (induction m) (simp_all add: findShift_row_None)

lemma findShift_first:
  "i < length m \<Longrightarrow> j < length (m ! i) \<Longrightarrow> 0 < m ! i ! j \<Longrightarrow>
   (\<forall>i' < i. \<forall>v \<in> set (m ! i'). \<not> 0 < v) \<Longrightarrow> (\<forall>j' < j. \<not> 0 < m ! i ! j') \<Longrightarrow>
   findShift m = - int j + 1"
proof (induction m arbitrary: i)
  case Nil
  then show ?case by simp
next
  case (Cons row m)
  show ?case
  proof (cases i)
    case 0
    with Cons.prems have "findShift_row row 0 = Some (- int (0 + j) + 1)"
      by (intro findShift_row_first) auto
    then show ?thesis by simp
  next
    case (Suc k)
    with Cons.prems have "\<forall>v \<in> set row. \<not> 0 < v" by auto
    then have "findShift_row row 0 = None" by (rule findShift_row_None)
    moreover have "findShift m = - int j + 1"
      using Cons.prems Suc by (intro Cons.IH [of k]) auto
    ultimately show ?thesis by simp
  qed
qed

lemma Bounds_SetPixelError: "Bounds (SetPixelError p x y c) = Bounds p"
  by (simp add: SetPixelError_def)

lemma Bounds_write_all: "Bounds (write_all p ws) = Bounds p"
  by (induction p ws rule: write_all.induct) (simp_all add: Bounds_SetPixelError)

lemma PixelErrorAt_SetPixelError_other:
  "(x', y') \<noteq> (x, y) \<Longrightarrow> PixelErrorAt (SetPixelError p x y c) x' y' = PixelErrorAt p x' y'"
  by (auto simp add: PixelErrorAt_def SetPixelError_def)

lemma PixelErrorAt_write_all_other:
  "(x', y') \<notin> fst ` set ws \<Longrightarrow> PixelErrorAt (write_all p ws) x' y' = PixelErrorAt p x' y'"
proof (induction p ws rule: write_all.induct)
  case (1 p)
  then show ?case by simp
next
  case (2 p x y c ws)
  then have "PixelErrorAt (write_all (SetPixelError p x y c) ws) x' y' = PixelErrorAt (SetPixelError p x y c) x' y'"
    by simp
  also have "\<dots> = PixelErrorAt p x' y'"
    using "2.prems" by (intro PixelErrorAt_SetPixelError_other) auto
  finally show ?case by simp
qed

lemma PixelErrorAt_New: "PixelErrorAt (NewErrorImage r) x y = zero_error"
  by (simp add: PixelErrorAt_def NewErrorImage_def)


section \<open>The claims\<close>

text \<open>
  C1. The claim that the chosen colour is the first palette entry of least Manhattan
  distance, and the returned distance that minimum, fails where the sum of the three
  absolute differences exceeds 65535: \<^verbatim>\<open>findColor\<close> adds them in \<^verbatim>\<open>uint16\<close>. For the
  error 29334 in every channel, a black pixel and the palette of black and white, the
  Manhattan distances are 66000 to black and 65235 to white, yet \<^verbatim>\<open>findColor\<close> returns
  black, with the distance 464. Where no entry's distance exceeds 65535 the claim holds
  (\<open>findColor_nearest_in_range\<close>).
\<close>

theorem findColor_distance_wraps:
  "findColor (29334, 29334, 29334, 65535) black [black, white] =
     Inr (RGBA 0 0 0 255, PixelError 22000 22000 22000 65535, 464) \<and>
   manhattan (working (29334, 29334, 29334, 65535) black) black = 66000 \<and>
   manhattan (working (29334, 29334, 29334, 65535) black) white = 65235"
  by (simp add: findColor_def working_def distance_def manhattan_def abs16_def lowpass_def
      chan8_def black_def white_def RGBA_RGBA_def widen8_def word_sless_alt signed_divide_int_def)




text \<open>
  C3. A cell of the error buffer that was never written reads as the zero error, at
  every coordinate, negative ones included: in a fresh buffer, and after any run of
  writes to other coordinates. A write at a coordinate outside the rectangle leaves the
  buffer as it was, so the coordinate reads as zero afterwards and no later read
  anywhere is affected.
\<close>

theorem ErrorImage_unwritten_and_discarded:
  "PixelErrorAt (NewErrorImage r) x y = zero_error \<and>
   ((x, y) \<notin> fst ` set ws \<longrightarrow> PixelErrorAt (write_all (NewErrorImage r) ws) x y = zero_error) \<and>
   (\<not> In (Point x y) (Bounds p) \<longrightarrow>
      SetPixelError p x y c = p \<and> PixelErrorAt (SetPixelError p x y c) x y = zero_error \<and>
      PixelErrorAt (write_all (SetPixelError p x y c) ws) x' y' = PixelErrorAt (write_all p ws) x' y')"
  by (simp add: PixelErrorAt_New PixelErrorAt_write_all_other)
     (simp add: SetPixelError_def PixelErrorAt_def)

theorem ErrorImage_unwritten_and_discarded_witness:
  "PixelErrorAt (write_all (NewErrorImage (Rectangle (Point 0 0) (Point 2 2)))
      [((0, 0), PixelError 5 6 7 65535), ((- 1, 3), PixelError 1 1 1 65535)]) 1 1 = zero_error \<and>
   SetPixelError (NewErrorImage (Rectangle (Point 0 0) (Point 2 2))) (- 1) 3 (PixelError 1 1 1 65535)
     = NewErrorImage (Rectangle (Point 0 0) (Point 2 2)) \<and>
   PixelErrorAt (SetPixelError (NewErrorImage (Rectangle (Point 0 0) (Point 2 2))) (- 1) 3
      (PixelError 1 1 1 65535)) (- 1) 3 = zero_error"
  using ErrorImage_unwritten_and_discarded [of "Rectangle (Point 0 0) (Point 2 2)" 1 1
      "[((0, 0), PixelError 5 6 7 65535), ((- 1, 3), PixelError 1 1 1 65535)]"]
    ErrorImage_unwritten_and_discarded [of _ "- 1" 3 _ "NewErrorImage (Rectangle (Point 0 0) (Point 2 2))"
      "PixelError 1 1 1 65535"]
  by (simp add: In_def NewErrorImage_def)


text \<open>
  C4. \<^verbatim>\<open>findShift\<close> returns 0 for a kernel without a strictly positive weight; for the
  first strictly positive weight in the order of the scan (rows from the top, each row
  from the left), at column \<open>j\<close>, it returns \<open>- j + 1\<close>; in particular \<open>- 1\<close> when that
  weight is at row 0, column 2.
\<close>

theorem findShift_first_positive:
  "((\<forall>row \<in> set m. \<forall>v \<in> set row. \<not> 0 < v) \<longrightarrow> findShift m = 0) \<and>
   (i < length m \<and> j < length (m ! i) \<and> 0 < m ! i ! j \<and>
    (\<forall>i' < i. \<forall>v \<in> set (m ! i'). \<not> 0 < v) \<and> (\<forall>j' < j. \<not> 0 < m ! i ! j')
      \<longrightarrow> findShift m = - int j + 1) \<and>
   (m \<noteq> [] \<and> 2 < length (m ! 0) \<and> \<not> 0 < m ! 0 ! 0 \<and> \<not> 0 < m ! 0 ! 1 \<and> 0 < m ! 0 ! 2
      \<longrightarrow> findShift m = - 1)"
proof (intro conjI impI)
  assume "\<forall>row \<in> set m. \<forall>v \<in> set row. \<not> 0 < v"
  then show "findShift m = 0" by (rule findShift_none)
next
  assume "i < length m \<and> j < length (m ! i) \<and> 0 < m ! i ! j \<and>
    (\<forall>i' < i. \<forall>v \<in> set (m ! i'). \<not> 0 < v) \<and> (\<forall>j' < j. \<not> 0 < m ! i ! j')"
  then show "findShift m = - int j + 1" by (intro findShift_first) auto
next
  assume a: "m \<noteq> [] \<and> 2 < length (m ! 0) \<and> \<not> 0 < m ! 0 ! 0 \<and> \<not> 0 < m ! 0 ! 1 \<and> 0 < m ! 0 ! 2"
  have "\<forall>j' < 2. \<not> 0 < m ! 0 ! j'"
  proof (intro allI impI)
    fix j' :: nat assume "j' < 2"
    then have "j' = 0 \<or> j' = 1" by auto
    with a show "\<not> 0 < m ! 0 ! j'" by auto
  qed
  with a have "findShift m = - int 2 + 1"
    by (intro findShift_first [of 0 m 2]) auto
  then show "findShift m = - 1" by simp
qed

theorem findShift_first_positive_witness:
  "findShift [[0, 0], [- 1, 0]] = 0 \<and> findShift [[0, - 1 / 2], [0, 1 / 4, 1 / 4]] = 0 \<and>
   findShift FloydSteinberg = - 1"
  using findShift_first_positive [of "[[0, 0], [- 1, 0]]" 0 0]
    findShift_first_positive [of "[[0, - 1 / 2], [0, 1 / 4, 1 / 4]]" 1 1]
    findShift_first_positive [of FloydSteinberg 0 2]
  by (simp add: FloydSteinberg_def)


text \<open>
  C5. When the destination is not an \<^verbatim>\<open>*image.Paletted\<close>, \<^verbatim>\<open>Draw\<close> returns at once:
  the destination is as it was, no frame has been sent, and no error buffer has been
  allocated, whatever the engine, the rectangle and the source.
\<close>

theorem Draw_not_paletted_noop:
  "Draw dit (OtherImage other) rect src =
     Inr \<lparr>dst_out = OtherImage other, frames = [], errbuf = None\<rparr>"
  by (simp add: Draw_def)

text \<open>
  C6. The claim that both contract violations are rejected fails for the destination: a
  destination that is not palette-indexed is not rejected, \<^verbatim>\<open>Draw\<close> returns normally
  and has done nothing.
\<close>

theorem Draw_not_paletted_not_rejected:
  "Draw (NewDither FloydSteinberg) rgba_canvas (Rectangle (Point 0 0) (Point 8 8)) orange_source =
     Inr \<lparr>dst_out = rgba_canvas, frames = [], errbuf = None\<rparr>"
  by (simp add: Draw_def rgba_canvas_def)

text \<open>
  C6, as amended. An empty palette makes \<^verbatim>\<open>findColor\<close> fail, with the panic of
  \<^verbatim>\<open>pal[index]\<close>; a destination that is not palette-indexed makes \<^verbatim>\<open>Draw\<close> return
  normally without any effect.
\<close>

theorem empty_palette_panics_wrong_destination_ignored:
  "findColor err pix [] = Inl IndexOutOfRange \<and>
   Draw dit (OtherImage other) rect src =
     Inr \<lparr>dst_out = OtherImage other, frames = [], errbuf = None\<rparr>"
  by (simp add: Draw_def findColor_Nil)

text \<open>
  C7. The stride is the truncating quotient of the number of pixels by the frame count,
  as claimed. But the call fails where the frame count exceeds the number of pixels: on
  a rectangle of 2 by 2 pixels with a frame count of 5 the stride is 0, and the
  remainder by it panics at the pixel \<open>(1, 1)\<close>. With a frame count of 4, equal to the
  number of pixels, the stride is 1 and a frame is sent at that pixel.
\<close>

theorem Draw_frameCount_above_pixels_panics:
  "stride (NewDitherAnimation FloydSteinberg 5) (Rectangle (Point 0 0) (Point 2 2)) = 0 \<and>
   Draw (NewDitherAnimation FloydSteinberg 5) (PalettedImage canvas)
      (Rectangle (Point 0 0) (Point 2 2)) orange_source = Inl DivideByZero \<and>
   stride (NewDitherAnimation FloydSteinberg 4) (Rectangle (Point 0 0) (Point 2 2)) = 1 \<and>
   frames_sent (Draw (NewDitherAnimation FloydSteinberg 4) (PalettedImage canvas)
      (Rectangle (Point 0 0) (Point 2 2)) orange_source) = Inr 1"
proof (intro conjI)
  show "stride (NewDitherAnimation FloydSteinberg 5) (Rectangle (Point 0 0) (Point 2 2)) = 0"
    by (simp add: example_defs)
  show "Draw (NewDitherAnimation FloydSteinberg 5) (PalettedImage canvas)
      (Rectangle (Point 0 0) (Point 2 2)) orange_source = Inl DivideByZero"
    by (rule Draw_zero_stride [of _ _ _ 1 1]) (simp_all add: example_defs)
  show "stride (NewDitherAnimation FloydSteinberg 4) (Rectangle (Point 0 0) (Point 2 2)) = 1"
    by (simp add: example_defs)
  show "frames_sent (Draw (NewDitherAnimation FloydSteinberg 4) (PalettedImage canvas)
      (Rectangle (Point 0 0) (Point 2 2)) orange_source) = Inr 1"
    by (subst Draw_frames_sent) (simp_all add: example_defs)
qed

text \<open>
  C8. An engine built by \<^verbatim>\<open>NewDither\<close> (one frame) sends a frame all the same when the
  rectangle is the single pixel \<open>(1, 1)\<close>: the stride is 1 and both coordinates are
  nonzero.
\<close>

theorem NewDither_sends_frame:
  "frames_sent (Draw (NewDither FloydSteinberg) (PalettedImage canvas)
      (Rectangle (Point 1 1) (Point 2 2)) orange_source) = Inr 1"
  by (subst Draw_frames_sent) (simp_all add: example_defs)

text \<open>
  C9. With four frames on the image of 8 by 8 pixels at the origin the stride is 16, and
  a frame is sent at each pixel where both coordinates are nonzero and
  \<open>y * height + x\<close> is a multiple of the stride, as claimed. But no frame at all is
  sent, not three: the multiples 16, 32 and 48 of the stride fall at \<open>x = 0\<close>, where
  the test \<^verbatim>\<open>x != 0\<close> drops them.
\<close>

theorem Draw_8x8_sends_no_frame:
  "stride (NewDitherAnimation FloydSteinberg 4) (Rectangle (Point 0 0) (Point 8 8)) = 16 \<and>
   emissions (Rectangle (Point 0 0) (Point 8 8)) 16 = [] \<and>
   frames_sent (Draw (NewDitherAnimation FloydSteinberg 4) (PalettedImage canvas)
      (Rectangle (Point 0 0) (Point 8 8)) orange_source) = Inr 0"
proof (intro conjI)
  show st: "stride (NewDitherAnimation FloydSteinberg 4) (Rectangle (Point 0 0) (Point 8 8)) = 16"
    by (simp add: stride_def Dx_def Dy_def wrap64_id NewDitherAnimation_def signed_divide_int_def)
  show "emissions (Rectangle (Point 0 0) (Point 8 8)) 16 = []"
    by (rule emissions_8x8)
  show "frames_sent (Draw (NewDitherAnimation FloydSteinberg 4) (PalettedImage canvas)
      (Rectangle (Point 0 0) (Point 8 8)) orange_source) = Inr 0"
    by (subst Draw_frames_sent) (simp_all add: st emissions_8x8, simp_all add: canvas_def NewDitherAnimation_def)
qed


text \<open>
  C10. When \<^verbatim>\<open>Draw\<close> returns for a paletted destination, the destination is still
  paletted, with the bounds and the palette it had, and every pixel outside the
  rectangle is as it was before the call.
\<close>

theorem Draw_writes_within_rect:
  assumes "Draw dit (PalettedImage paletted) rect src = Inr res"
  shows "\<exists>dst'. dst_out res = PalettedImage dst' \<and> Rect dst' = Rect paletted \<and>
           Palette dst' = Palette paletted \<and>
           (\<forall>x y. \<not> In (Point x y) rect \<longrightarrow> Pix dst' x y = Pix paletted x y)"
  using Draw_Inr [OF assms] by blast

theorem Draw_writes_within_rect_witness:
  "\<exists>res dst'. Draw (NewDither FloydSteinberg) (PalettedImage canvas)
       (Rectangle (Point 2 3) (Point 5 6)) orange_source = Inr res \<and>
     dst_out res = PalettedImage dst' \<and> \<not> In (Point 5 3) (Rectangle (Point 2 3) (Point 5 6)) \<and>
     Pix dst' 5 3 = Pix canvas 5 3"
proof -
  obtain res where res: "Draw (NewDither FloydSteinberg) (PalettedImage canvas)
       (Rectangle (Point 2 3) (Point 5 6)) orange_source = Inr res"
    using Draw_total [of canvas "NewDither FloydSteinberg" "Rectangle (Point 2 3) (Point 5 6)"
        orange_source]
    by (auto simp add: example_defs)
  have out: "\<not> In (Point 5 3) (Rectangle (Point 2 3) (Point 5 6))" by (simp add: In_def)
  from Draw_writes_within_rect [OF res] out res show ?thesis by blast
qed


end
